theory Spec2Isabelle
  imports Main
begin

section \<open>The satellite radar of \<^verbatim>\<open>scripts/titan_radar_ultimate_5000.py\<close>\<close>

text \<open>
  The script derives, for every main star \<open>n\<close>, the integer \<open>P = n^47 - (n-1)^47\<close> and
  tests \<open>P - k\<close> for primality for the even offsets \<open>k = 2, 4, ..., SEARCH_RADIUS\<close>
  that survive the filter \<open>k % 3 == 1\<close>. Python integers are unbounded, so they are
  \<open>int\<close> here. The primality test \<^verbatim>\<open>gmpy2.is_prime\<close> belongs to an external library
  and is a parameter of the model, as is the flag \<^verbatim>\<open>HAS_GMPY2\<close> that the import sets.
\<close>

subsection \<open>Constants and the derived value\<close>

definition Q :: nat where
  "Q = 47"

definition SEARCH_RADIUS :: int where
  "SEARCH_RADIUS = 5000"

definition q47 :: "int \<Rightarrow> int" where
  "q47 n = n ^ Q - (n - 1) ^ Q"

definition hardcoded_n :: "int list" where
  "hardcoded_n =
    [117309848, 136584738, 218787064, 411784485, 423600750,
     523331634, 640399031, 987980498, 1163461515, 1370439187,
     1643105964, 1691581855, 1975860550, 1996430175,
     2156109985, 2367719045, 2559344807, 2646631730, 2682956949,
     2859276863, 2862155914, 2922108368, 3808591354, 3910149357,
     3984049296]"

subsection \<open>Python's \<^verbatim>\<open>range\<close> with a positive step\<close>

text \<open>
  \<^verbatim>\<open>range(start, stop, step)\<close> yields \<open>start, start + step, ...\<close> while the value is
  below \<open>stop\<close>. The script only uses the steps 1 and 2; a step that is not positive
  yields nothing here.
\<close>

function py_range :: "int \<Rightarrow> int \<Rightarrow> int \<Rightarrow> int list" where
  "py_range start stop step =
     (if 0 < step \<and> start < stop then start # py_range (start + step) stop step else [])"
  by pat_completeness auto
termination
  by (relation "measure (\<lambda>(start, stop, step). nat (stop - start))") auto

declare py_range.simps [simp del]

subsection \<open>The state of the scan\<close>

text \<open>
  The two \<^verbatim>\<open>print\<close> statements of the inner loop are the hit records: the first one
  names the main star and the fixed text \<^verbatim>\<open>P - 2\<close>, the second one the main star and
  the offset.
\<close>

datatype hit = TwinPrime int | Satellite int int

text \<open>
  The counters and the printed hits are the script's own state. The fields
  \<open>oracle_calls\<close> and \<open>stars\<close> are a log of what the loops do: each call of the
  primality test as (main star, offset, candidate), and each main star with its
  derived value as the line \<^verbatim>\<open>P = q47(n)\<close> computes it.
\<close>

record scan_state =
  total_satellites :: int
  twin_primes :: int
  hits :: "hit list"
  oracle_calls :: "(int \<times> int \<times> int) list"
  stars :: "(int \<times> int) list"

type_synonym prime_test = "int \<Rightarrow> int \<Rightarrow> bool"

definition init_state :: scan_state where
  "init_state = \<lparr>total_satellites = 0, twin_primes = 0, hits = [], oracle_calls = [], stars = []\<rparr>"

subsection \<open>The three nested loops\<close>

text \<open>
  The body of the \<open>k\<close> loop. \<^verbatim>\<open>HAS_GMPY2 and gmpy2.is_prime(candidate, 25)\<close> evaluates
  the call only when the flag is true.
\<close>

definition visit_offset :: "bool \<Rightarrow> prime_test \<Rightarrow> int \<Rightarrow> int \<Rightarrow> int \<Rightarrow> scan_state \<Rightarrow> scan_state" where
  "visit_offset has_gmpy2 is_prime n P k st =
     (if k mod 3 = 1 then st
      else
        let candidate = P - k in
        if has_gmpy2 then
          let st1 = st\<lparr>oracle_calls := oracle_calls st @ [(n, k, candidate)]\<rparr> in
          if is_prime candidate 25 then
            let st2 = st1\<lparr>total_satellites := total_satellites st1 + 1\<rparr> in
            if k = 2 then
              st2\<lparr>twin_primes := twin_primes st2 + 1, hits := hits st2 @ [TwinPrime n]\<rparr>
            else
              st2\<lparr>hits := hits st2 @ [Satellite n k]\<rparr>
          else st1
        else st)"

fun scan_offsets :: "bool \<Rightarrow> prime_test \<Rightarrow> int \<Rightarrow> int \<Rightarrow> int list \<Rightarrow> scan_state \<Rightarrow> scan_state" where
  "scan_offsets has_gmpy2 is_prime n P [] st = st"
| "scan_offsets has_gmpy2 is_prime n P (k # ks) st =
     scan_offsets has_gmpy2 is_prime n P ks (visit_offset has_gmpy2 is_prime n P k st)"

text \<open>The body of the \<^verbatim>\<open>for offset in range(4)\<close> loop.\<close>

definition scan_star :: "bool \<Rightarrow> prime_test \<Rightarrow> int \<Rightarrow> int \<Rightarrow> int \<Rightarrow> scan_state \<Rightarrow> scan_state" where
  "scan_star has_gmpy2 is_prime radius base_n offset st =
     (let n = base_n + offset;
          P = q47 n;
          st0 = st\<lparr>stars := stars st @ [(n, P)]\<rparr>
      in scan_offsets has_gmpy2 is_prime n P (py_range 2 (radius + 1) 2) st0)"

fun scan_quadruplet :: "bool \<Rightarrow> prime_test \<Rightarrow> int \<Rightarrow> int \<Rightarrow> int list \<Rightarrow> scan_state \<Rightarrow> scan_state" where
  "scan_quadruplet has_gmpy2 is_prime radius base_n [] st = st"
| "scan_quadruplet has_gmpy2 is_prime radius base_n (offset # offsets) st =
     scan_quadruplet has_gmpy2 is_prime radius base_n offsets
       (scan_star has_gmpy2 is_prime radius base_n offset st)"

fun scan_bases :: "bool \<Rightarrow> prime_test \<Rightarrow> int \<Rightarrow> int list \<Rightarrow> scan_state \<Rightarrow> scan_state" where
  "scan_bases has_gmpy2 is_prime radius [] st = st"
| "scan_bases has_gmpy2 is_prime radius (base_n # rest) st =
     scan_bases has_gmpy2 is_prime radius rest
       (scan_quadruplet has_gmpy2 is_prime radius base_n (py_range 0 4 1) st)"

text \<open>
  The scan over a list of bases with the search radius as a parameter, from the
  counters at zero.
\<close>

definition radar :: "bool \<Rightarrow> prime_test \<Rightarrow> int list \<Rightarrow> int \<Rightarrow> scan_state" where
  "radar has_gmpy2 is_prime sorted_n radius =
     scan_bases has_gmpy2 is_prime radius sorted_n init_state"

text \<open>
  \<^verbatim>\<open>main\<close>: the numbers matched in the log files (\<open>file_n\<close>, each from the digits
  \<^verbatim>\<open>\d+\<close>, so none is negative) and the hard-coded table go into one set, which is
  sorted and scanned with \<^verbatim>\<open>SEARCH_RADIUS\<close>.
\<close>

definition main :: "bool \<Rightarrow> prime_test \<Rightarrow> int list \<Rightarrow> scan_state" where
  "main has_gmpy2 is_prime file_n =
     radar has_gmpy2 is_prime (sort (remdups (file_n @ hardcoded_n))) SEARCH_RADIUS"

subsection \<open>The iteration space in closed form\<close>

text \<open>The offsets of one window that reach the primality test.\<close>

definition tested_offsets :: "int \<Rightarrow> int list" where
  "tested_offsets radius = filter (\<lambda>k. k mod 3 \<noteq> 1) (py_range 2 (radius + 1) 2)"

text \<open>The main stars the scan visits, in order: four for each base.\<close>

definition main_stars :: "int list \<Rightarrow> int list" where
  "main_stars sorted_n = concat (map (\<lambda>b. [b, b + 1, b + 2, b + 3]) sorted_n)"

text \<open>The message the script prints for a hit at offset \<open>k\<close> of main star \<open>n\<close>.\<close>

definition emit :: "int \<times> int \<Rightarrow> hit" where
  "emit p = (if snd p = 2 then TwinPrime (fst p) else Satellite (fst p) (snd p))"

text \<open>The offsets of a list at which the primality test is called and answers yes.\<close>

definition accepted :: "bool \<Rightarrow> prime_test \<Rightarrow> int \<Rightarrow> int list \<Rightarrow> int list" where
  "accepted has_gmpy2 is_prime P ks =
     filter (\<lambda>k. has_gmpy2 \<and> k mod 3 \<noteq> 1 \<and> is_prime (P - k) 25) ks"

text \<open>Every (main star, offset) pair that reaches the primality test, in scan order.\<close>

definition tested_pairs :: "int list \<Rightarrow> int \<Rightarrow> (int \<times> int) list" where
  "tested_pairs sorted_n radius =
     concat (map (\<lambda>n. map (\<lambda>k. (n, k)) (tested_offsets radius)) (main_stars sorted_n))"

text \<open>The pairs of one main star, and of the whole scan, that the test accepts.\<close>

definition star_hits :: "bool \<Rightarrow> prime_test \<Rightarrow> int \<Rightarrow> int \<Rightarrow> (int \<times> int) list" where
  "star_hits has_gmpy2 is_prime radius n =
     filter (\<lambda>p. has_gmpy2 \<and> is_prime (q47 (fst p) - snd p) 25)
       (map (\<lambda>k. (n, k)) (tested_offsets radius))"

definition hit_pairs :: "bool \<Rightarrow> prime_test \<Rightarrow> int list \<Rightarrow> int \<Rightarrow> (int \<times> int) list" where
  "hit_pairs has_gmpy2 is_prime sorted_n radius =
     filter (\<lambda>p. has_gmpy2 \<and> is_prime (q47 (fst p) - snd p) 25) (tested_pairs sorted_n radius)"

text \<open>
  Two stand-ins for the external primality test, for running the scan on concrete
  inputs: one answers no to every candidate, one answers yes.
\<close>

definition reject_all :: prime_test where
  "reject_all candidate reps = False"

definition accept_all :: prime_test where
  "accept_all candidate reps = True"

text \<open>Which of the two messages a printed hit is.\<close>

fun is_twin :: "hit \<Rightarrow> bool" where
  "is_twin (TwinPrime n) = True"
| "is_twin (Satellite n k) = False"

text \<open>
  The offset a printed hit names: the twin message prints the fixed text \<^verbatim>\<open>P - 2\<close>,
  the satellite message prints \<open>k\<close>.
\<close>

fun hit_offset :: "hit \<Rightarrow> int" where
  "hit_offset (TwinPrime n) = 2"
| "hit_offset (Satellite n k) = k"

text \<open>
  The accepted pairs of the scan of one base, that is of one pass of the
  \<^verbatim>\<open>for offset in range(4)\<close> loop, and the order in which they come: by main star,
  and by offset within one main star.
\<close>

definition base_hits :: "bool \<Rightarrow> prime_test \<Rightarrow> int \<Rightarrow> int \<Rightarrow> (int \<times> int) list" where
  "base_hits has_gmpy2 is_prime radius base_n =
     concat (map (\<lambda>offset. star_hits has_gmpy2 is_prime radius (base_n + offset)) (py_range 0 4 1))"

definition star_then_offset :: "int \<times> int \<Rightarrow> int \<times> int \<Rightarrow> bool" where
  "star_then_offset p q \<longleftrightarrow> fst p < fst q \<or> (fst p = fst q \<and> snd p < snd q)"

text \<open>
  A stand-in for the primality test that accepts two candidates of the first base of
  the hard-coded table, \<open>q47 117309848 - 3572\<close> and \<open>q47 117309849 - 1170\<close>; a
  Miller-Rabin test reports both as prime.
\<close>

definition first_base_primes :: prime_test where
  "first_base_primes candidate reps \<longleftrightarrow>
     candidate = q47 117309848 - 3572 \<or> candidate = q47 117309849 - 1170"

section \<open>Auxiliary facts\<close>

subsection \<open>The range\<close>

lemma py_range_0_4: "py_range 0 4 1 = [0, 1, 2, 3]"
  by (simp add: py_range.simps)

lemma set_py_range:
  "k \<in> set (py_range start stop step) \<longleftrightarrow>
     0 < step \<and> start \<le> k \<and> k < stop \<and> (k - start) mod step = 0"
proof (induction start stop step rule: py_range.induct)
  case (1 start stop step)
  show ?case
  proof (cases "0 < step \<and> start < stop")
    case False
    then show ?thesis by (subst py_range.simps) auto
  next
    case True
    have "k - (start + step) = k - start - step" by simp
    then have m: "(k - (start + step)) mod step = (k - start) mod step"
      by (simp only: minus_mod_self2)
    have "k \<in> set (py_range start stop step) \<longleftrightarrow>
            k = start \<or> k \<in> set (py_range (start + step) stop step)"
      using True by (subst py_range.simps) simp
    also have "\<dots> \<longleftrightarrow> k = start \<or>
        (0 < step \<and> start + step \<le> k \<and> k < stop \<and> (k - start) mod step = 0)"
      using "1.IH" [OF True] m by simp
    also have "\<dots> \<longleftrightarrow> 0 < step \<and> start \<le> k \<and> k < stop \<and> (k - start) mod step = 0"
    proof -
      have "start + step \<le> k" if "start < k" "(k - start) mod step = 0" "0 < step"
      proof -
        from that(2) have "step dvd k - start" by (simp add: dvd_eq_mod_eq_0)
        moreover have "0 < k - start" using that(1) by simp
        ultimately have "step \<le> k - start" by (rule zdvd_imp_le)
        then show ?thesis by simp
      qed
      then show ?thesis using True by auto
    qed
    finally show ?thesis .
  qed
qed

lemma py_range_lower: "x \<in> set (py_range start stop step) \<Longrightarrow> start \<le> x"
  by (simp add: set_py_range)

lemma sorted_py_range: "sorted_wrt (<) (py_range start stop step)"
proof (induction start stop step rule: py_range.induct)
  case (1 start stop step)
  show ?case
  proof (cases "0 < step \<and> start < stop")
    case False
    then have "py_range start stop step = []" by (subst py_range.simps) auto
    then show ?thesis by simp
  next
    case True
    then have unf: "py_range start stop step = start # py_range (start + step) stop step"
      by (subst py_range.simps) simp
    have "\<forall>x\<in>set (py_range (start + step) stop step). start < x"
      using True by (auto dest: py_range_lower)
    with "1.IH" [OF True] show ?thesis by (simp add: unf)
  qed
qed

lemma distinct_py_range: "distinct (py_range start stop step)"
  using sorted_py_range [of start stop step] by (simp add: strict_sorted_iff)

lemma length_py_range_2: "length (py_range start stop 2) = nat ((stop - start + 1) div 2)"
proof (induction start stop "2::int" rule: py_range.induct)
  case (1 start stop)
  show ?case
  proof (cases "start < stop")
    case False
    then show ?thesis by (subst py_range.simps) simp
  next
    case True
    have "length (py_range start stop 2) = Suc (length (py_range (start + 2) stop 2))"
      using True by (subst py_range.simps) simp
    also have "\<dots> = Suc (nat ((stop - (start + 2) + 1) div 2))"
      using "1.hyps" True by simp
    also have "\<dots> = nat ((stop - start + 1) div 2)"
      using True by (simp add: Suc_nat_eq_nat_zadd1)
    finally show ?thesis .
  qed
qed

lemma length_window: "length (py_range 2 (radius + 1) 2) = nat (radius div 2)"
  by (simp add: length_py_range_2)

subsection \<open>The derived value\<close>

lemma q47_sum: "q47 n = (\<Sum>p<47. n ^ p * (n - 1) ^ (46 - p))"
proof -
  have "n ^ Suc 46 - (n - 1) ^ Suc 46 = (n - (n - 1)) * (\<Sum>p<Suc 46. n ^ p * (n - 1) ^ (46 - p))"
    by (rule diff_power_eq_sum)
  moreover have "Suc 46 = 47" by simp
  ultimately have "n ^ 47 - (n - 1) ^ 47 = (n - (n - 1)) * (\<Sum>p<47. n ^ p * (n - 1) ^ (46 - p))"
    by (simp only:)
  moreover have "n - (n - 1) = 1" by simp
  ultimately show ?thesis by (simp only: q47_def Q_def mult_1)
qed

lemma q47_strict_mono_aux:
  assumes "1 \<le> a" and "a < b"
  shows "q47 a < q47 b"
proof -
  have le: "\<forall>p\<in>{..<47::nat}. a ^ p * (a - 1) ^ (46 - p) \<le> b ^ p * (b - 1) ^ (46 - p)"
  proof
    fix p :: nat
    assume "p \<in> {..<47}"
    have "a ^ p \<le> b ^ p" using assms by (intro power_mono) auto
    moreover have "(a - 1) ^ (46 - p) \<le> (b - 1) ^ (46 - p)" using assms by (intro power_mono) auto
    moreover have "0 \<le> b ^ p" using assms by simp
    moreover have "0 \<le> (a - 1) ^ (46 - p)" using assms by simp
    ultimately show "a ^ p * (a - 1) ^ (46 - p) \<le> b ^ p * (b - 1) ^ (46 - p)"
      by (rule mult_mono)
  qed
  have "a ^ 46 < b ^ 46" using assms by (intro power_strict_mono) auto
  then have "a ^ 46 * (a - 1) ^ (46 - 46) < b ^ 46 * (b - 1) ^ (46 - 46)"
    by simp
  moreover have "(46::nat) \<in> {..<47}" by simp
  ultimately have ex: "\<exists>p\<in>{..<47::nat}. a ^ p * (a - 1) ^ (46 - p) < b ^ p * (b - 1) ^ (46 - p)"
    by blast
  have "(\<Sum>p<47. a ^ p * (a - 1) ^ (46 - p)) < (\<Sum>p<47. b ^ p * (b - 1) ^ (46 - p))"
    by (rule sum_strict_mono_ex1 [OF finite_lessThan le ex])
  then show ?thesis by (simp only: q47_sum)
qed

lemma pow47_mod_3: "(x::int) ^ 47 mod 3 = x mod 3"
proof -
  have c: "x mod 3 = 0 \<or> x mod 3 = 1 \<or> x mod 3 = 2" by presburger
  have eq: "x ^ 47 mod 3 = (x mod 3) ^ 47 mod 3" by (simp only: power_mod)
  from c show ?thesis
  proof (elim disjE)
    assume "x mod 3 = 0"
    then show ?thesis by (simp only: eq) simp
  next
    assume "x mod 3 = 1"
    then show ?thesis by (simp only: eq) simp
  next
    assume "x mod 3 = 2"
    then show ?thesis by (simp only: eq) simp
  qed
qed

lemma q47_mod_3: "q47 n mod 3 = 1"
proof -
  have "q47 n mod 3 = (n ^ 47 mod 3 - (n - 1) ^ 47 mod 3) mod 3"
    by (simp only: q47_def Q_def mod_diff_eq)
  also have "\<dots> = (n mod 3 - (n - 1) mod 3) mod 3" by (simp only: pow47_mod_3)
  also have "\<dots> = (n - (n - 1)) mod 3" by (simp only: mod_diff_eq)
  finally show ?thesis by simp
qed

lemma q47_dvd_3: "k mod 3 = 1 \<Longrightarrow> 3 dvd q47 n - k"
proof -
  assume "k mod 3 = 1"
  then have "(q47 n - k) mod 3 = 0"
    using q47_mod_3 [of n] by (metis cancel_comm_monoid_add_class.diff_cancel mod_diff_eq mod_0)
  then show ?thesis by (simp only: dvd_eq_mod_eq_0)
qed

subsection \<open>What each loop adds to the state\<close>

lemma scan_offsets_stars: "stars (scan_offsets h t n P ks st) = stars st"
  by (induction ks arbitrary: st) (simp_all add: visit_offset_def Let_def)

lemma scan_offsets_hits:
  "hits (scan_offsets h t n P ks st) = hits st @ map (\<lambda>k. emit (n, k)) (accepted h t P ks)"
  by (induction ks arbitrary: st) (simp_all add: visit_offset_def accepted_def emit_def Let_def)

lemma scan_offsets_calls:
  "oracle_calls (scan_offsets h t n P ks st) =
     oracle_calls st @ (if h then map (\<lambda>k. (n, k, P - k)) (filter (\<lambda>k. k mod 3 \<noteq> 1) ks) else [])"
  by (induction ks arbitrary: st) (simp_all add: visit_offset_def Let_def)

lemma scan_offsets_total:
  "total_satellites (scan_offsets h t n P ks st) =
     total_satellites st + int (length (accepted h t P ks))"
  by (induction ks arbitrary: st) (simp_all add: visit_offset_def accepted_def Let_def)

lemma scan_offsets_twin:
  "twin_primes (scan_offsets h t n P ks st) =
     twin_primes st + int (length (filter (\<lambda>k. k = 2) (accepted h t P ks)))"
  by (induction ks arbitrary: st) (simp_all add: visit_offset_def accepted_def Let_def)

lemma star_hits_accepted:
  "star_hits h t radius n = map (\<lambda>k. (n, k)) (accepted h t (q47 n) (py_range 2 (radius + 1) 2))"
  by (simp add: star_hits_def accepted_def tested_offsets_def filter_map comp_def conj_commute conj_left_commute)

lemma scan_star_stars:
  "stars (scan_star h t radius b off st) = stars st @ [(b + off, q47 (b + off))]"
  by (simp add: scan_star_def Let_def scan_offsets_stars)

lemma scan_star_hits:
  "hits (scan_star h t radius b off st) = hits st @ map emit (star_hits h t radius (b + off))"
  by (simp add: scan_star_def Let_def scan_offsets_hits star_hits_accepted comp_def)

lemma scan_star_calls:
  "oracle_calls (scan_star h t radius b off st) =
     oracle_calls st @
       (if h then map (\<lambda>k. (b + off, k, q47 (b + off) - k)) (tested_offsets radius) else [])"
  by (simp add: scan_star_def Let_def scan_offsets_calls tested_offsets_def)

lemma scan_star_total:
  "total_satellites (scan_star h t radius b off st) =
     total_satellites st + int (length (star_hits h t radius (b + off)))"
  by (simp add: scan_star_def Let_def scan_offsets_total star_hits_accepted)

lemma scan_star_twin:
  "twin_primes (scan_star h t radius b off st) =
     twin_primes st + int (length (filter (\<lambda>p. snd p = 2) (star_hits h t radius (b + off))))"
  by (simp add: scan_star_def Let_def scan_offsets_twin star_hits_accepted filter_map comp_def)

lemma scan_quadruplet_stars:
  "stars (scan_quadruplet h t radius b offs st) =
     stars st @ map (\<lambda>off. (b + off, q47 (b + off))) offs"
  by (induction offs arbitrary: st) (simp_all add: scan_star_stars)

lemma scan_quadruplet_hits:
  "hits (scan_quadruplet h t radius b offs st) =
     hits st @ map emit (concat (map (\<lambda>off. star_hits h t radius (b + off)) offs))"
  by (induction offs arbitrary: st) (simp_all add: scan_star_hits)

lemma scan_quadruplet_calls:
  "oracle_calls (scan_quadruplet h t radius b offs st) =
     oracle_calls st @
       (if h then concat (map (\<lambda>off. map (\<lambda>k. (b + off, k, q47 (b + off) - k))
                                 (tested_offsets radius)) offs) else [])"
  by (induction offs arbitrary: st) (simp_all add: scan_star_calls)

lemma scan_quadruplet_total:
  "total_satellites (scan_quadruplet h t radius b offs st) =
     total_satellites st +
       int (length (concat (map (\<lambda>off. star_hits h t radius (b + off)) offs)))"
  by (induction offs arbitrary: st) (simp_all add: scan_star_total)

lemma scan_quadruplet_twin:
  "twin_primes (scan_quadruplet h t radius b offs st) =
     twin_primes st +
       int (length (filter (\<lambda>p. snd p = 2)
         (concat (map (\<lambda>off. star_hits h t radius (b + off)) offs))))"
  by (induction offs arbitrary: st) (simp_all add: scan_star_twin)

lemma hit_pairs_Cons:
  "hit_pairs h t (b # ns) radius =
     concat (map (\<lambda>off. star_hits h t radius (b + off)) [0, 1, 2, 3]) @ hit_pairs h t ns radius"
  by (simp add: hit_pairs_def tested_pairs_def main_stars_def star_hits_def)

lemma tested_pairs_Cons:
  "tested_pairs (b # ns) radius =
     concat (map (\<lambda>off. map (\<lambda>k. (b + off, k)) (tested_offsets radius)) [0, 1, 2, 3])
       @ tested_pairs ns radius"
  by (simp add: tested_pairs_def main_stars_def)

lemma scan_bases_stars:
  "stars (scan_bases h t radius ns st) = stars st @ map (\<lambda>n. (n, q47 n)) (main_stars ns)"
proof (induction ns arbitrary: st)
  case Nil
  show ?case by (simp add: main_stars_def)
next
  case (Cons b ns)
  show ?case
    unfolding scan_bases.simps Cons.IH scan_quadruplet_stars py_range_0_4
    by (simp add: main_stars_def)
qed

lemma scan_bases_hits:
  "hits (scan_bases h t radius ns st) = hits st @ map emit (hit_pairs h t ns radius)"
proof (induction ns arbitrary: st)
  case Nil
  show ?case by (simp add: hit_pairs_def tested_pairs_def main_stars_def)
next
  case (Cons b ns)
  show ?case
    by (simp only: scan_bases.simps Cons.IH scan_quadruplet_hits py_range_0_4 hit_pairs_Cons
          map_append append_assoc)
qed

lemma scan_bases_calls:
  "oracle_calls (scan_bases h t radius ns st) =
     oracle_calls st @
       (if h then map (\<lambda>p. (fst p, snd p, q47 (fst p) - snd p)) (tested_pairs ns radius) else [])"
proof (induction ns arbitrary: st)
  case Nil
  show ?case by (simp add: tested_pairs_def main_stars_def)
next
  case (Cons b ns)
  show ?case
    unfolding scan_bases.simps Cons.IH scan_quadruplet_calls py_range_0_4 tested_pairs_Cons
    by (simp add: comp_def)
qed

lemma scan_bases_total:
  "total_satellites (scan_bases h t radius ns st) =
     total_satellites st + int (length (hit_pairs h t ns radius))"
proof (induction ns arbitrary: st)
  case Nil
  show ?case by (simp add: hit_pairs_def tested_pairs_def main_stars_def)
next
  case (Cons b ns)
  show ?case
    unfolding scan_bases.simps Cons.IH scan_quadruplet_total py_range_0_4 hit_pairs_Cons
    by simp
qed

lemma scan_bases_twin:
  "twin_primes (scan_bases h t radius ns st) =
     twin_primes st + int (length (filter (\<lambda>p. snd p = 2) (hit_pairs h t ns radius)))"
proof (induction ns arbitrary: st)
  case Nil
  show ?case by (simp add: hit_pairs_def tested_pairs_def main_stars_def)
next
  case (Cons b ns)
  show ?case
    unfolding scan_bases.simps Cons.IH scan_quadruplet_twin py_range_0_4 hit_pairs_Cons
    by simp
qed

subsection \<open>The whole scan\<close>

lemma radar_stars:
  "stars (radar h t ns radius) = map (\<lambda>n. (n, q47 n)) (main_stars ns)"
  by (simp add: radar_def scan_bases_stars init_state_def)

lemma radar_hits: "hits (radar h t ns radius) = map emit (hit_pairs h t ns radius)"
  by (simp add: radar_def scan_bases_hits init_state_def)

lemma radar_calls:
  "oracle_calls (radar h t ns radius) =
     (if h then map (\<lambda>p. (fst p, snd p, q47 (fst p) - snd p)) (tested_pairs ns radius) else [])"
  by (simp add: radar_def scan_bases_calls init_state_def)

lemma radar_total:
  "total_satellites (radar h t ns radius) = int (length (hit_pairs h t ns radius))"
  by (simp add: radar_def scan_bases_total init_state_def)

lemma radar_twin:
  "twin_primes (radar h t ns radius) =
     int (length (filter (\<lambda>p. snd p = 2) (hit_pairs h t ns radius)))"
  by (simp add: radar_def scan_bases_twin init_state_def)

lemma hit_pairs_False: "hit_pairs False t ns radius = []"
  by (simp add: hit_pairs_def)

lemma is_twin_emit: "is_twin (emit p) \<longleftrightarrow> snd p = 2"
  by (simp add: emit_def)

lemma length_tested_pairs:
  "length (tested_pairs ns radius) = 4 * length ns * length (tested_offsets radius)"
proof (induction ns)
  case Nil
  show ?case by (simp add: tested_pairs_def main_stars_def)
next
  case (Cons b ns)
  then show ?case by (simp add: tested_pairs_Cons algebra_simps)
qed

lemma length_tested_offsets: "length (tested_offsets radius) \<le> nat (radius div 2)"
proof -
  have "length (tested_offsets radius) \<le> length (py_range 2 (radius + 1) 2)"
    unfolding tested_offsets_def by (rule length_filter_le)
  then show ?thesis by (simp only: length_window)
qed

subsection \<open>Membership and counting in the logs\<close>

lemma set_window:
  "k \<in> set (py_range 2 (radius + 1) 2) \<longleftrightarrow> 2 \<le> k \<and> k \<le> radius \<and> even k"
proof -
  have "(k - 2) mod 2 = 0 \<longleftrightarrow> even k" by presburger
  then show ?thesis by (auto simp add: set_py_range)
qed

lemma set_tested_offsets:
  "k \<in> set (tested_offsets radius) \<longleftrightarrow> 2 \<le> k \<and> k \<le> radius \<and> even k \<and> k mod 3 \<noteq> 1"
  by (auto simp add: tested_offsets_def set_window)

lemma distinct_tested_offsets: "distinct (tested_offsets radius)"
  by (simp add: tested_offsets_def distinct_py_range)

lemma set_main_stars:
  "n \<in> set (main_stars ns) \<longleftrightarrow> (\<exists>b\<in>set ns. n = b \<or> n = b + 1 \<or> n = b + 2 \<or> n = b + 3)"
  by (auto simp add: main_stars_def)

lemma set_tested_pairs:
  "p \<in> set (tested_pairs ns radius) \<longleftrightarrow>
     fst p \<in> set (main_stars ns) \<and> snd p \<in> set (tested_offsets radius)"
  by (cases p) (auto simp add: tested_pairs_def)

lemma count_list_distinct:
  "distinct xs \<Longrightarrow> x \<in> set xs \<Longrightarrow> count_list xs x = 1"
  by (induction xs) auto

lemma count_list_pairs:
  "count_list (map (\<lambda>k'. (m, k')) ks) (n, k) = (if m = n then count_list ks k else 0)"
  by (induction ks) auto

lemma count_list_concat_pairs:
  "count_list (concat (map (\<lambda>m. map (\<lambda>k'. (m, k')) ks) ms)) (n, k) =
     count_list ms n * count_list ks k"
  by (induction ms) (auto simp add: count_list_pairs)

lemma count_main_stars:
  "count_list (main_stars ns) n = length (filter (\<lambda>b. b \<le> n \<and> n \<le> b + 3) ns)"
proof (induction ns)
  case Nil
  show ?case by (simp add: main_stars_def)
next
  case (Cons b ns)
  have "main_stars (b # ns) = [b, b + 1, b + 2, b + 3] @ main_stars ns"
    by (simp add: main_stars_def)
  then have "count_list (main_stars (b # ns)) n =
      count_list [b, b + 1, b + 2, b + 3] n + count_list (main_stars ns) n"
    by (simp only: count_list_append)
  moreover have "count_list [b, b + 1, b + 2, b + 3] n = (if b \<le> n \<and> n \<le> b + 3 then 1 else 0)"
    by auto
  ultimately show ?case using Cons.IH by simp
qed

lemma count_calls:
  "count_list (oracle_calls (radar True t ns radius)) (n, k, q47 n - k) =
     count_list (main_stars ns) n * count_list (tested_offsets radius) k"
proof -
  have inj: "inj (\<lambda>p::int \<times> int. (fst p, snd p, q47 (fst p) - snd p))"
    by (rule injI) (auto simp add: prod_eq_iff)
  have "count_list (map (\<lambda>p. (fst p, snd p, q47 (fst p) - snd p)) (tested_pairs ns radius))
          (n, k, q47 n - k) = count_list (tested_pairs ns radius) (n, k)"
    using count_list_map_conv [OF inj, of "tested_pairs ns radius" "(n, k)"] by simp
  also have "\<dots> = count_list (main_stars ns) n * count_list (tested_offsets radius) k"
    unfolding tested_pairs_def by (rule count_list_concat_pairs)
  finally show ?thesis by (simp add: radar_calls)
qed

lemma filter_window_unique:
  fixes ns :: "int list"
  assumes d: "distinct ns"
    and sp: "\<forall>b\<in>set ns. \<forall>c\<in>set ns. b < c \<longrightarrow> b + 4 \<le> c"
    and ex: "\<exists>b\<in>set ns. b \<le> n \<and> n \<le> b + 3"
  shows "length (filter (\<lambda>b. b \<le> n \<and> n \<le> b + 3) ns) = (1::nat)"
proof -
  from ex obtain b where b: "b \<in> set ns" "b \<le> n" "n \<le> b + 3" by blast
  have "set (filter (\<lambda>b. b \<le> n \<and> n \<le> b + 3) ns) = {b}"
  proof (intro equalityI subsetI)
    fix c assume "c \<in> set (filter (\<lambda>b. b \<le> n \<and> n \<le> b + 3) ns)"
    then have c: "c \<in> set ns" "c \<le> n" "n \<le> c + 3" by auto
    have "\<not> b < c" using sp b c by fastforce
    moreover have "\<not> c < b" using sp b c by fastforce
    ultimately show "c \<in> {b}" by simp
  next
    fix c assume "c \<in> {b}"
    then show "c \<in> set (filter (\<lambda>b. b \<le> n \<and> n \<le> b + 3) ns)" using b by simp
  qed
  moreover have "distinct (filter (\<lambda>b. b \<le> n \<and> n \<le> b + 3) ns)" using d by simp
  ultimately have "length (filter (\<lambda>b. b \<le> n \<and> n \<le> b + 3) ns) = card {b}"
    by (metis distinct_card)
  then show ?thesis by simp
qed

lemma count_calls_visits:
  assumes "2 \<le> k" "k \<le> radius" "even k" "k mod 3 \<noteq> 1"
  shows "count_list (oracle_calls (radar True t ns radius)) (n, k, q47 n - k) =
           length (filter (\<lambda>b. b \<le> n \<and> n \<le> b + 3) ns)"
proof -
  have "k \<in> set (tested_offsets radius)" using assms by (simp add: set_tested_offsets)
  then have "count_list (tested_offsets radius) k = 1"
    using distinct_tested_offsets by (simp add: count_list_distinct)
  then show ?thesis by (simp add: count_calls count_main_stars)
qed

lemma filter_sorted_bases:
  "length (filter P (sort (remdups xs))) = length (remdups (filter P xs))"
  by (simp add: filter_sort remdups_filter)

lemma inj_emit: "emit p = emit q \<longleftrightarrow> p = q"
  by (cases p; cases q) (auto simp add: emit_def)

lemma set_calls:
  "(n, k, c) \<in> set (oracle_calls (radar True t ns radius)) \<longleftrightarrow>
     n \<in> set (main_stars ns) \<and> k \<in> set (tested_offsets radius) \<and> c = q47 n - k"
proof -
  have "(n, k, c) \<in> (\<lambda>p. (fst p, snd p, q47 (fst p) - snd p)) ` set (tested_pairs ns radius) \<longleftrightarrow>
          (n, k) \<in> set (tested_pairs ns radius) \<and> c = q47 n - k"
    by force
  then show ?thesis by (simp add: radar_calls set_tested_pairs)
qed

lemma set_hits:
  "emit (n, k) \<in> set (hits (radar True t ns radius)) \<longleftrightarrow>
     n \<in> set (main_stars ns) \<and> k \<in> set (tested_offsets radius) \<and> t (q47 n - k) 25"
proof -
  have "emit (n, k) \<in> emit ` set (hit_pairs True t ns radius) \<longleftrightarrow>
          (n, k) \<in> set (hit_pairs True t ns radius)"
    by (auto simp add: inj_emit)
  then show ?thesis by (simp add: radar_hits hit_pairs_def set_tested_pairs)
qed

lemma set_stars:
  "(n, P) \<in> set (stars (radar h t ns radius)) \<longleftrightarrow> n \<in> set (main_stars ns) \<and> P = q47 n"
  by (auto simp add: radar_stars)

lemma main_star_of_base:
  "b \<in> set ns \<Longrightarrow> off \<in> {0, 1, 2, 3} \<Longrightarrow> b + off \<in> set (main_stars ns)"
  by (auto simp add: set_main_stars)

lemma window_odd: "odd radius \<Longrightarrow> py_range 2 (radius + 1) 2 = py_range 2 radius 2"
proof -
  assume o: "odd radius"
  have "set (py_range 2 (radius + 1) 2) = set (py_range 2 radius 2)"
  proof (intro set_eqI)
    fix k
    have "k \<noteq> radius" if "(k - 2) mod 2 = 0" using that o by presburger
    then show "k \<in> set (py_range 2 (radius + 1) 2) \<longleftrightarrow> k \<in> set (py_range 2 radius 2)"
      by (auto simp add: set_py_range)
  qed
  moreover have "sorted (py_range 2 (radius + 1) 2)" "sorted (py_range 2 radius 2)"
    by (simp_all add: strict_sorted_imp_sorted sorted_py_range)
  ultimately show ?thesis
    by (intro sorted_distinct_set_unique) (simp_all add: distinct_py_range)
qed

lemma tested_offsets_odd: "odd radius \<Longrightarrow> tested_offsets radius = tested_offsets (radius - 1)"
  by (simp add: tested_offsets_def window_odd)

lemma tested_offsets_small: "radius < 2 \<Longrightarrow> tested_offsets radius = []"
  by (simp add: tested_offsets_def py_range.simps)

lemma two_visits:
  fixes ns :: "int list"
  assumes "b1 \<in> set ns" "b2 \<in> set ns" "b1 < b2" "b2 < b1 + 4"
  shows "2 \<le> count_list (main_stars ns) b2"
proof -
  let ?f = "filter (\<lambda>b. b \<le> b2 \<and> b2 \<le> b + 3) ns"
  have "{b1, b2} \<subseteq> set ?f" using assms by auto
  then have "card {b1, b2} \<le> card (set ?f)" by (intro card_mono) auto
  also have "\<dots> \<le> length ?f" by (rule card_length)
  finally show ?thesis using assms(3) by (simp add: count_main_stars)
qed

subsection \<open>The hits of one base\<close>

lemma hit_offset_emit: "hit_offset (emit p) = snd p"
  by (simp add: emit_def)

lemma base_hits_append:
  "base_hits h t radius b =
     star_hits h t radius b @ star_hits h t radius (b + 1) @
     star_hits h t radius (b + 2) @ star_hits h t radius (b + 3)"
  by (simp add: base_hits_def py_range_0_4)

lemma scan_base_hits:
  "hits (scan_quadruplet h t radius b (py_range 0 4 1) st) = hits st @ map emit (base_hits h t radius b)"
  by (simp only: scan_quadruplet_hits base_hits_def)

lemma fst_star_hits: "p \<in> set (star_hits h t radius n) \<Longrightarrow> fst p = n"
  by (auto simp add: star_hits_def)

lemma map_fst_star_hits:
  "map fst (star_hits h t radius n) = replicate (length (star_hits h t radius n)) n"
proof -
  have "map fst (star_hits h t radius n) = map (\<lambda>p. n) (star_hits h t radius n)"
    by (rule map_cong) (simp_all add: fst_star_hits)
  then show ?thesis by (simp only: map_replicate_const)
qed

lemma sorted_star_offsets: "sorted_wrt (<) (map snd (star_hits h t radius n))"
proof -
  have "map snd (star_hits h t radius n) = accepted h t (q47 n) (py_range 2 (radius + 1) 2)"
    by (simp add: star_hits_accepted comp_def)
  then show ?thesis by (simp add: accepted_def sorted_wrt_filter sorted_py_range)
qed

lemma sorted_star_hits: "sorted_wrt star_then_offset (star_hits h t radius n)"
proof -
  have "sorted_wrt (\<lambda>p q. snd p < snd q) (star_hits h t radius n)"
    using sorted_star_offsets [of h t radius n] by (simp add: sorted_wrt_map)
  then show ?thesis
    by (rule sorted_wrt_mono_rel [rotated]) (auto simp add: star_then_offset_def dest: fst_star_hits)
qed

lemma sorted_base_hits: "sorted_wrt star_then_offset (base_hits h t radius b)"
  apply (simp add: base_hits_append sorted_wrt_append sorted_star_hits)
  apply (auto simp add: star_then_offset_def dest!: fst_star_hits)
  done

lemma distinct_base_hits: "distinct (base_hits h t radius b)"
proof -
  have "irreflp star_then_offset" by (auto simp add: irreflp_def star_then_offset_def)
  moreover have "transp star_then_offset" by (auto simp add: transp_def star_then_offset_def)
  ultimately show ?thesis using sorted_base_hits [of h t radius b]
    by (metis distinct_conv_nth irreflpD sorted_wrt_iff_nth_less linorder_neqE_nat)
qed

lemma mem_star_hits:
  "k \<in> set (tested_offsets radius) \<Longrightarrow> t (q47 n - k) 25 \<Longrightarrow> (n, k) \<in> set (star_hits True t radius n)"
  by (simp add: star_hits_def)

lemma offsets_restart:
  assumes k1: "k1 \<in> set (tested_offsets radius)" and k2: "k2 \<in> set (tested_offsets radius)"
    and t1: "t (q47 b - k1) 25" and t2: "t (q47 (b + 1) - k2) 25" and le: "k2 \<le> k1"
  shows "\<not> sorted_wrt (<) (map hit_offset
           (hits (scan_quadruplet True t radius b (py_range 0 4 1) init_state)))"
proof
  assume s: "sorted_wrt (<) (map hit_offset
           (hits (scan_quadruplet True t radius b (py_range 0 4 1) init_state)))"
  have "hits (scan_quadruplet True t radius b (py_range 0 4 1) init_state) =
          map emit (base_hits True t radius b)"
    by (simp add: scan_base_hits init_state_def)
  with s have "sorted_wrt (<) (map snd (star_hits True t radius b) @
      map snd (star_hits True t radius (b + 1) @ star_hits True t radius (b + 2) @
               star_hits True t radius (b + 3)))"
    by (simp add: hit_offset_emit comp_def base_hits_append)
  then have all: "\<forall>x\<in>set (map snd (star_hits True t radius b)).
      \<forall>y\<in>set (map snd (star_hits True t radius (b + 1) @ star_hits True t radius (b + 2) @
               star_hits True t radius (b + 3))). x < y"
    unfolding sorted_wrt_append by blast
  have "k1 \<in> set (map snd (star_hits True t radius b))"
    using mem_star_hits [where t = t and n = b, OF k1 t1] by force
  moreover have "k2 \<in> set (map snd (star_hits True t radius (b + 1) @ star_hits True t radius (b + 2) @
               star_hits True t radius (b + 3)))"
    using mem_star_hits [where t = t and n = "b + 1", OF k2 t2] by force
  ultimately have "k1 < k2" using all by blast
  with le show False by simp
qed

lemma sorted_hardcoded:
  "sort (remdups ([] @ hardcoded_n)) = 117309848 # tl (sort (remdups ([] @ hardcoded_n)))"
  by (simp add: hardcoded_n_def)

lemma length_hits_le:
  "length (hits (radar h t ns radius)) \<le> 4 * length ns * nat (radius div 2)"
proof -
  have "length (hits (radar h t ns radius)) \<le> length (tested_pairs ns radius)"
    by (simp add: radar_hits hit_pairs_def)
  also have "\<dots> = 4 * length ns * length (tested_offsets radius)"
    by (rule length_tested_pairs)
  also have "\<dots> \<le> 4 * length ns * nat (radius div 2)"
    using length_tested_offsets [of radius] by (rule mult_left_mono) simp
  finally show ?thesis .
qed

subsection \<open>Small instances\<close>

lemma py_range_2_3: "py_range 2 3 2 = [2]"
  by (simp add: py_range.simps)

lemma py_range_2_5: "py_range 2 5 2 = [2, 4]"
  by (simp add: py_range.simps)

lemma q47_2: "q47 2 = 140737488355327"
  by (simp add: q47_def Q_def)

section \<open>The derived value and the filter\<close>

text \<open>
  C8. The derived value \<open>P(n) = n^47 - (n-1)^47\<close> is strictly increasing on the
  integers from 1 on: a smaller main star \<open>a \<ge> 1\<close> has a smaller derived value
  than a larger one.
\<close>

theorem q47_strictly_increasing:
  "1 \<le> a \<Longrightarrow> a < b \<Longrightarrow> q47 a < q47 b"
  by (rule q47_strict_mono_aux)

theorem q47_strictly_increasing_witness:
  "(1::int) \<le> 1 \<and> (1::int) < 2 \<and> q47 1 < q47 2"
  using q47_strictly_increasing [of 1 2] by simp

text \<open>
  C1. Filter soundness. For a main star \<open>n \<ge> 1\<close> and an offset \<open>k\<close> of the scanned
  range with \<open>k mod 3 = 1\<close>, the candidate \<open>P - k\<close> is divisible by 3; when it is
  greater than 3 it has a proper divisor, so it is not prime. These are exactly the
  offsets the loop body skips: they are not among the tested offsets, and the body
  leaves the state as it was.
\<close>

theorem filter_soundness:
  "1 \<le> n \<Longrightarrow> k \<in> set (py_range 2 (radius + 1) 2) \<Longrightarrow> k mod 3 = 1 \<Longrightarrow>
     3 dvd q47 n - k \<and>
     (3 < q47 n - k \<longrightarrow> (\<exists>d. 1 < d \<and> d < q47 n - k \<and> d dvd q47 n - k)) \<and>
     k \<notin> set (tested_offsets radius) \<and>
     visit_offset has_gmpy2 is_prime n (q47 n) k st = st"
proof (intro conjI impI)
  assume k: "k mod 3 = 1"
  show d: "3 dvd q47 n - k" using k by (rule q47_dvd_3)
  show "k \<notin> set (tested_offsets radius)" using k by (simp add: tested_offsets_def)
  show "visit_offset has_gmpy2 is_prime n (q47 n) k st = st"
    using k by (simp add: visit_offset_def)
  assume "3 < q47 n - k"
  with d have "1 < (3::int) \<and> 3 < q47 n - k \<and> 3 dvd q47 n - k" by simp
  then show "\<exists>d. 1 < d \<and> d < q47 n - k \<and> d dvd q47 n - k" ..
qed

theorem filter_soundness_witness:
  "(1::int) \<le> 2 \<and> (4::int) \<in> set (py_range 2 (4 + 1) 2) \<and> (4::int) mod 3 = 1 \<and>
   3 dvd q47 2 - 4 \<and> 3 < q47 2 - 4 \<and>
   (\<exists>d. 1 < d \<and> d < q47 2 - 4 \<and> d dvd q47 2 - 4) \<and>
   4 \<notin> set (tested_offsets 4) \<and>
   visit_offset True reject_all 2 (q47 2) 4 init_state = init_state"
  using filter_soundness [of 2 4 4 True reject_all init_state]
  by (simp add: py_range_2_5 q47_2)

section \<open>The scan\<close>

text \<open>
  C10. Without gmpy2 the scan still visits every main star of every base, but it calls
  no primality test and prints no hit: both counters end at zero, for every list of
  bases and every radius, and so for every run of \<^verbatim>\<open>main\<close>. The result is an
  ordinary final state; no error is raised.
\<close>

theorem gmpy2_fallback:
  "oracle_calls (radar False is_prime sorted_n radius) = [] \<and>
   hits (radar False is_prime sorted_n radius) = [] \<and>
   total_satellites (radar False is_prime sorted_n radius) = 0 \<and>
   twin_primes (radar False is_prime sorted_n radius) = 0 \<and>
   stars (radar False is_prime sorted_n radius) = map (\<lambda>n. (n, q47 n)) (main_stars sorted_n) \<and>
   oracle_calls (main False is_prime file_n) = [] \<and>
   hits (main False is_prime file_n) = [] \<and>
   total_satellites (main False is_prime file_n) = 0 \<and>
   twin_primes (main False is_prime file_n) = 0"
  by (simp add: main_def radar_calls radar_hits radar_total radar_twin radar_stars hit_pairs_False)

text \<open>
  C5. Twin flag. The printed hits are the accepted (main star, offset) pairs in scan
  order, each printed as the twin message exactly when its offset is 2 and as the
  satellite message otherwise; the counter \<open>twin_primes\<close> is the number of twin
  messages, which is the number of accepted pairs with offset 2.
\<close>

theorem twin_flag:
  "hits (radar has_gmpy2 is_prime sorted_n radius) =
     map emit (hit_pairs has_gmpy2 is_prime sorted_n radius) \<and>
   (is_twin (emit (n, k)) \<longleftrightarrow> k = 2) \<and>
   (emit (n, k) = TwinPrime n \<longleftrightarrow> k = 2) \<and>
   (emit (n, k) = Satellite n k \<longleftrightarrow> k \<noteq> 2) \<and>
   twin_primes (radar has_gmpy2 is_prime sorted_n radius) =
     int (length (filter is_twin (hits (radar has_gmpy2 is_prime sorted_n radius)))) \<and>
   twin_primes (radar has_gmpy2 is_prime sorted_n radius) =
     int (length (filter (\<lambda>p. snd p = 2) (hit_pairs has_gmpy2 is_prime sorted_n radius)))"
  by (simp add: radar_hits radar_twin filter_map comp_def is_twin_emit emit_def)

text \<open>
  C6. Order. The claim that the hits of the scan of a single base come in strictly
  increasing order of offset fails: the scan of a base is four windows, one for each
  main star, and the offset starts again at 2 in each. In the scan of the first
  hard-coded base 117309848, with which \<^verbatim>\<open>main\<close> begins, the hit at offset 3572 of the
  main star 117309848 is printed before the hit at offset 1170 of the main star
  117309849.
\<close>

theorem offset_order_counterexample:
  "hits (main True first_base_primes []) =
     hits (scan_quadruplet True first_base_primes SEARCH_RADIUS 117309848 (py_range 0 4 1) init_state) @
     map emit (hit_pairs True first_base_primes (tl (sort (remdups ([] @ hardcoded_n)))) SEARCH_RADIUS) \<and>
   \<not> sorted_wrt (<) (map hit_offset
       (hits (scan_quadruplet True first_base_primes SEARCH_RADIUS 117309848 (py_range 0 4 1) init_state)))"
proof
  have "main True first_base_primes [] =
      scan_bases True first_base_primes SEARCH_RADIUS
        (117309848 # tl (sort (remdups ([] @ hardcoded_n)))) init_state"
    using sorted_hardcoded by (simp only: main_def radar_def)
  then show "hits (main True first_base_primes []) =
     hits (scan_quadruplet True first_base_primes SEARCH_RADIUS 117309848 (py_range 0 4 1) init_state) @
     map emit (hit_pairs True first_base_primes (tl (sort (remdups ([] @ hardcoded_n)))) SEARCH_RADIUS)"
    by (simp only: scan_bases.simps scan_bases_hits)
next
  have k1: "(3572::int) \<in> set (tested_offsets SEARCH_RADIUS)"
    by (simp add: set_tested_offsets SEARCH_RADIUS_def)
  have k2: "(1170::int) \<in> set (tested_offsets SEARCH_RADIUS)"
    by (simp add: set_tested_offsets SEARCH_RADIUS_def)
  have t1: "first_base_primes (q47 117309848 - 3572) 25" by (simp add: first_base_primes_def)
  have t2: "first_base_primes (q47 (117309848 + 1) - 1170) 25" by (simp add: first_base_primes_def)
  show "\<not> sorted_wrt (<) (map hit_offset
       (hits (scan_quadruplet True first_base_primes SEARCH_RADIUS 117309848 (py_range 0 4 1) init_state)))"
    by (rule offsets_restart [where t = first_base_primes and b = 117309848, OF k1 k2 t1 t2]) simp
qed

text \<open>
  C6, amended. Within the scan of a single base the hits are printed main star by main
  star, for \<open>b\<close>, \<open>b + 1\<close>, \<open>b + 2\<close>, \<open>b + 3\<close> in this order, and within one main
  star in strictly increasing order of the offset \<open>k\<close>; no (main star, offset) pair
  is printed twice within the scan of one base.
\<close>

theorem hits_in_star_then_offset_order:
  "hits (scan_quadruplet has_gmpy2 is_prime radius base_n (py_range 0 4 1) st) =
     hits st @ map emit (base_hits has_gmpy2 is_prime radius base_n) \<and>
   base_hits has_gmpy2 is_prime radius base_n =
     star_hits has_gmpy2 is_prime radius base_n @ star_hits has_gmpy2 is_prime radius (base_n + 1) @
     star_hits has_gmpy2 is_prime radius (base_n + 2) @ star_hits has_gmpy2 is_prime radius (base_n + 3) \<and>
   map fst (star_hits has_gmpy2 is_prime radius n) =
     replicate (length (star_hits has_gmpy2 is_prime radius n)) n \<and>
   sorted_wrt (<) (map snd (star_hits has_gmpy2 is_prime radius n)) \<and>
   sorted_wrt star_then_offset (base_hits has_gmpy2 is_prime radius base_n) \<and>
   distinct (base_hits has_gmpy2 is_prime radius base_n)"
proof (intro conjI)
  show "map fst (star_hits has_gmpy2 is_prime radius n) =
     replicate (length (star_hits has_gmpy2 is_prime radius n)) n"
    by (rule map_fst_star_hits)
qed (simp_all only: scan_base_hits base_hits_append [symmetric] sorted_star_offsets
       sorted_base_hits distinct_base_hits)

text \<open>
  C9. Quadruplet expansion. The main stars the scan visits are, for each base \<open>b\<close> in
  turn, \<open>b\<close>, \<open>b + 1\<close>, \<open>b + 2\<close> and \<open>b + 3\<close>, each with its own derived value.
  For each of the four, every tested offset of the window reaches the primality test
  (when gmpy2 is there), and a hit is printed under the main star \<open>b + off\<close> whenever
  the test accepts, whether or not that number is itself a base. When two bases differ
  by less than 4, the larger one is visited at least twice.
\<close>

theorem quadruplet_expansion:
  "stars (radar has_gmpy2 is_prime sorted_n radius) = map (\<lambda>n. (n, q47 n)) (main_stars sorted_n) \<and>
   (b \<in> set sorted_n \<and> off \<in> {0, 1, 2, 3} \<longrightarrow>
      (b + off, q47 (b + off)) \<in> set (stars (radar has_gmpy2 is_prime sorted_n radius)) \<and>
      (\<forall>k\<in>set (tested_offsets radius).
         (b + off, k, q47 (b + off) - k) \<in> set (oracle_calls (radar True is_prime sorted_n radius)) \<and>
         (is_prime (q47 (b + off) - k) 25 \<longrightarrow>
            emit (b + off, k) \<in> set (hits (radar True is_prime sorted_n radius))))) \<and>
   (b1 \<in> set sorted_n \<and> b2 \<in> set sorted_n \<and> b1 < b2 \<and> b2 < b1 + 4 \<longrightarrow>
      2 \<le> count_list (map fst (stars (radar has_gmpy2 is_prime sorted_n radius))) b2)"
proof (intro conjI impI ballI)
  show "stars (radar has_gmpy2 is_prime sorted_n radius) = map (\<lambda>n. (n, q47 n)) (main_stars sorted_n)"
    by (rule radar_stars)
next
  assume "b \<in> set sorted_n \<and> off \<in> {0, 1, 2, 3}"
  then have "b + off \<in> set (main_stars sorted_n)" by (simp add: main_star_of_base)
  then show "(b + off, q47 (b + off)) \<in> set (stars (radar has_gmpy2 is_prime sorted_n radius))"
    by (simp add: set_stars)
next
  fix k
  assume "b \<in> set sorted_n \<and> off \<in> {0, 1, 2, 3}" and k: "k \<in> set (tested_offsets radius)"
  then have m: "b + off \<in> set (main_stars sorted_n)" by (simp add: main_star_of_base)
  with k show "(b + off, k, q47 (b + off) - k) \<in> set (oracle_calls (radar True is_prime sorted_n radius))"
    by (simp add: set_calls)
  assume "is_prime (q47 (b + off) - k) 25"
  with m k show "emit (b + off, k) \<in> set (hits (radar True is_prime sorted_n radius))"
    by (simp add: set_hits)
next
  assume "b1 \<in> set sorted_n \<and> b2 \<in> set sorted_n \<and> b1 < b2 \<and> b2 < b1 + 4"
  then have "2 \<le> count_list (main_stars sorted_n) b2" by (blast intro: two_visits)
  moreover have "map fst (stars (radar has_gmpy2 is_prime sorted_n radius)) = main_stars sorted_n"
    by (simp add: radar_stars comp_def)
  ultimately show "2 \<le> count_list (map fst (stars (radar has_gmpy2 is_prime sorted_n radius))) b2"
    by simp
qed

theorem quadruplet_expansion_witness:
  "(1::int) \<in> set [1, 2] \<and> (2::int) \<in> {0, 1, 2, 3} \<and> (1 + 2 :: int) \<notin> set [1, 2] \<and>
   (2::int) \<in> set (tested_offsets 2) \<and> accept_all (q47 3 - 2) 25 \<and>
   (3, q47 3) \<in> set (stars (radar True accept_all [1, 2] 2)) \<and>
   (3, 2, q47 3 - 2) \<in> set (oracle_calls (radar True accept_all [1, 2] 2)) \<and>
   TwinPrime 3 \<in> set (hits (radar True accept_all [1, 2] 2)) \<and>
   (2::int) \<in> set [1, 2] \<and> (1::int) < 2 \<and> (2::int) < 1 + 4 \<and>
   2 \<le> count_list (map fst (stars (radar True accept_all [1, 2] 2))) 2"
  using quadruplet_expansion [of True accept_all "[1, 2]" 2 1 2 1 2]
  by (simp add: tested_offsets_def py_range_2_3 accept_all_def emit_def main_stars_def)

text \<open>
  C2. Completeness. The claim that no (main star, offset) pair is tested twice fails:
  with the bases 1 and 2 read from the log files, the main star 2 belongs to both
  quadruplets, and the primality test is called twice for the main star 2 at offset 2.
\<close>

theorem oracle_once_counterexample:
  "count_list (oracle_calls (main True reject_all [1, 2])) (2, 2, q47 2 - 2) = 2"
proof -
  have "count_list (oracle_calls (radar True reject_all (sort (remdups ([1, 2] @ hardcoded_n))) 5000))
          (2, 2, q47 2 - 2) =
        length (filter (\<lambda>b. b \<le> 2 \<and> 2 \<le> b + 3) (sort (remdups ([1, 2] @ hardcoded_n))))"
    by (rule count_calls_visits) simp_all
  also have "\<dots> = 2"
    by (simp add: filter_sorted_bases hardcoded_n_def)
  finally show ?thesis by (simp add: main_def SEARCH_RADIUS_def)
qed

text \<open>
  C2, amended. With gmpy2 available, for every main star \<open>n\<close> and every even offset
  \<open>k\<close> from 2 to the radius with \<open>k mod 3 \<noteq> 1\<close>, the primality test is called on
  \<open>(n, k)\<close> once for each base \<open>b\<close> with \<open>b \<le> n \<le> b + 3\<close>: once for every visit of
  the main star. When the bases are distinct and at least 4 apart, that is exactly
  once for every main star of a quadruplet.
\<close>

theorem oracle_once_per_visit:
  "2 \<le> k \<Longrightarrow> k \<le> radius \<Longrightarrow> even k \<Longrightarrow> k mod 3 \<noteq> 1 \<Longrightarrow>
     count_list (oracle_calls (radar True is_prime sorted_n radius)) (n, k, q47 n - k) =
       length (filter (\<lambda>b. b \<le> n \<and> n \<le> b + 3) sorted_n) \<and>
     (distinct sorted_n \<and> (\<forall>b\<in>set sorted_n. \<forall>c\<in>set sorted_n. b < c \<longrightarrow> b + 4 \<le> c) \<and>
      (\<exists>b\<in>set sorted_n. b \<le> n \<and> n \<le> b + 3) \<longrightarrow>
        count_list (oracle_calls (radar True is_prime sorted_n radius)) (n, k, q47 n - k) = 1)"
  by (simp add: count_calls_visits filter_window_unique)

theorem oracle_once_per_visit_witness:
  "(2::int) \<le> 2 \<and> (2::int) \<le> 2 \<and> even (2::int) \<and> (2::int) mod 3 \<noteq> 1 \<and>
   distinct [1, 5 :: int] \<and> (1::int) + 4 \<le> 5 \<and> (1::int) \<le> 4 \<and> (4::int) \<le> 1 + 3 \<and>
   count_list (oracle_calls (radar True reject_all [1, 5] 2)) (4, 2, q47 4 - 2) = 1"
  using oracle_once_per_visit [of 2 2 reject_all "[1, 5]" 4] by simp

text \<open>
  C3. Non-positive candidates. The claim that such a candidate is rejected without a
  call of the primality test fails: with the base 1 read from a log file, the derived
  value is 1, the candidate at offset 2 is \<open>-1\<close>, and it is handed to the test.
\<close>

theorem nonpositive_candidate_counterexample:
  "q47 1 - 2 \<le> 0 \<and> (1, 2, q47 1 - 2) \<in> set (oracle_calls (main True reject_all [1]))"
proof
  show "q47 1 - 2 \<le> 0" by (simp add: q47_def Q_def)
  have "(1::int) + 0 \<in> set (main_stars (sort (remdups ([1] @ hardcoded_n))))"
    by (rule main_star_of_base) simp_all
  moreover have "(2::int) \<in> set (tested_offsets 5000)" by (simp add: set_tested_offsets)
  ultimately show "(1, 2, q47 1 - 2) \<in> set (oracle_calls (main True reject_all [1]))"
    by (simp add: main_def SEARCH_RADIUS_def set_calls)
qed

text \<open>
  C3, amended. The scan has no sign check of its own. With gmpy2 available, a
  candidate that is zero or negative is handed to the primality test like any other
  candidate of a tested offset, and it is printed as a hit exactly when the test
  accepts it.
\<close>

theorem nonpositive_candidate_tested:
  "n \<in> set (main_stars sorted_n) \<Longrightarrow> k \<in> set (tested_offsets radius) \<Longrightarrow> q47 n - k \<le> 0 \<Longrightarrow>
     (n, k, q47 n - k) \<in> set (oracle_calls (radar True is_prime sorted_n radius)) \<and>
     (emit (n, k) \<in> set (hits (radar True is_prime sorted_n radius)) \<longleftrightarrow> is_prime (q47 n - k) 25)"
  by (simp add: set_calls set_hits)

theorem nonpositive_candidate_tested_witness:
  "(1::int) \<in> set (main_stars [1]) \<and> (2::int) \<in> set (tested_offsets 2) \<and> q47 1 - 2 \<le> 0 \<and>
   (1, 2, q47 1 - 2) \<in> set (oracle_calls (radar True reject_all [1] 2)) \<and>
   emit (1, 2) \<notin> set (hits (radar True reject_all [1] 2))"
proof -
  have a: "(1::int) \<in> set (main_stars [1])" by (simp add: main_stars_def)
  have b: "(2::int) \<in> set (tested_offsets 2)" by (simp add: tested_offsets_def py_range_2_3)
  have c: "q47 1 - 2 \<le> 0" by (simp add: q47_def Q_def)
  show ?thesis
    using nonpositive_candidate_tested [OF a b c, of reject_all] a b c
    by (simp add: reject_all_def)
qed

text \<open>
  C4. Input validation. The claim that a base below 1 or a radius that is not a
  positive even number is refused before the scan starts fails: with the base 0 read
  from a log file the scan visits the main star 0 and tests its candidate at offset 2,
  and with the odd radius 3 the scan tests offset 2 of the base 2.
\<close>

theorem invalid_input_counterexample:
  "(0::int) < 1 \<and> (0, q47 0) \<in> set (stars (main True reject_all [0])) \<and>
   (0, 2, q47 0 - 2) \<in> set (oracle_calls (main True reject_all [0])) \<and>
   odd (3::int) \<and> (2, 2, q47 2 - 2) \<in> set (oracle_calls (radar True reject_all [2] 3))"
proof -
  have "(0::int) + 0 \<in> set (main_stars (sort (remdups ([0] @ hardcoded_n))))"
    by (rule main_star_of_base) simp_all
  then have m: "(0::int) \<in> set (main_stars (sort (remdups ([0] @ hardcoded_n))))" by simp
  have k: "(2::int) \<in> set (tested_offsets 5000)" by (simp add: set_tested_offsets)
  have k3: "(2::int) \<in> set (tested_offsets 3)" by (simp add: set_tested_offsets)
  have m2: "(2::int) \<in> set (main_stars [2])" by (simp add: main_stars_def)
  show ?thesis
    using m k k3 m2 by (simp add: main_def SEARCH_RADIUS_def set_calls set_stars)
qed

text \<open>
  C4, amended. The scan validates nothing. For every list of bases and every radius
  it runs the loops to the end: the calls of the primality test are those of the
  tested pairs, a radius below 2 gives an empty window, an odd radius gives the window
  of the even number below it, and a base below 1 is visited and tested like any
  other.
\<close>

theorem no_input_validation:
  "oracle_calls (radar True is_prime sorted_n radius) =
     map (\<lambda>p. (fst p, snd p, q47 (fst p) - snd p)) (tested_pairs sorted_n radius) \<and>
   (radius < 2 \<longrightarrow> tested_offsets radius = []) \<and>
   (odd radius \<longrightarrow> tested_offsets radius = tested_offsets (radius - 1)) \<and>
   (b \<in> set sorted_n \<and> b < 1 \<longrightarrow>
      (b, q47 b) \<in> set (stars (radar has_gmpy2 is_prime sorted_n radius)) \<and>
      (\<forall>k\<in>set (tested_offsets radius).
         (b, k, q47 b - k) \<in> set (oracle_calls (radar True is_prime sorted_n radius))))"
proof (intro conjI impI ballI)
  show "oracle_calls (radar True is_prime sorted_n radius) =
     map (\<lambda>p. (fst p, snd p, q47 (fst p) - snd p)) (tested_pairs sorted_n radius)"
    by (simp add: radar_calls)
  show "radius < 2 \<Longrightarrow> tested_offsets radius = []" by (rule tested_offsets_small)
  show "odd radius \<Longrightarrow> tested_offsets radius = tested_offsets (radius - 1)"
    by (rule tested_offsets_odd)
next
  assume "b \<in> set sorted_n \<and> b < 1"
  then have "b + 0 \<in> set (main_stars sorted_n)" by (intro main_star_of_base) simp_all
  then have m: "b \<in> set (main_stars sorted_n)" by simp
  then show "(b, q47 b) \<in> set (stars (radar has_gmpy2 is_prime sorted_n radius))"
    by (simp add: set_stars)
  fix k assume "k \<in> set (tested_offsets radius)"
  with m show "(b, k, q47 b - k) \<in> set (oracle_calls (radar True is_prime sorted_n radius))"
    by (simp add: set_calls)
qed

theorem no_input_validation_witness:
  "(1::int) < 2 \<and> odd (1::int) \<and> tested_offsets 1 = [] \<and> tested_offsets 1 = tested_offsets (1 - 1) \<and>
   (0::int) \<in> set [0] \<and> (0::int) < 1 \<and>
   (0, q47 0) \<in> set (stars (radar True reject_all [0] 1)) \<and>
   oracle_calls (radar True reject_all [0] 1) = []"
  using no_input_validation [of reject_all "[0]" 1 0 True]
  by (simp add: tested_pairs_def tested_offsets_small)

end
